theory Spec2Isabelle
  imports
    Complex_Main
    "HOL-Library.AList"
    "HOL-Library.Sublist"
    "HOL-Library.Char_ord"
    "HOL-Library.List_Lexorder"
begin

section \<open>The decoded document and Python's operations on it\<close>

text \<open>
  \<open>parse_board\<close> starts with \<open>data = json.load(f)\<close> and then works on the decoded
  document with Python's dynamic operations: subscripts, \<open>in\<close>, truth tests, hashing,
  \<open>list.sort\<close>. The document is modelled as the value \<open>json.load\<close> returns: \<open>None\<close>,
  \<open>bool\<close>, numbers (\<open>int\<close> and finite \<open>float\<close>, which Python compares exactly, as
  rationals), \<open>str\<close>, \<open>list\<close> and \<open>dict\<close>. A \<open>dict\<close> is an association list in
  insertion order, each key once as \<open>json.load\<close> builds it; lookups go through
  \<open>map_of\<close>. Strings are \<open>string\<close>s. The non-finite floats that \<open>json.load\<close> also
  accepts (\<open>NaN\<close>, \<open>Infinity\<close>) are not represented.
\<close>

datatype json =
    JNull
  | JBool bool
  | JNum rat
  | JStr string
  | JArr "json list"
  | JObj "(string \<times> json) list"

text \<open>The exceptions the code can raise, as values.\<close>

datatype error =
    KeyError
  | TypeError
  | AttributeError
  | StopIteration
  | IndexError
  | ValueError
  | OSError

definition bindE :: "error + 'a \<Rightarrow> ('a \<Rightarrow> error + 'b) \<Rightarrow> error + 'b" where
  "bindE r f = (case r of Inl e \<Rightarrow> Inl e | Inr v \<Rightarrow> f v)"

text \<open>Evaluating \<open>f\<close> on each element in order, stopping at the first exception.\<close>

fun mapE :: "('a \<Rightarrow> error + 'b) \<Rightarrow> 'a list \<Rightarrow> error + 'b list" where
  "mapE f [] = Inr []"
| "mapE f (x # xs) = bindE (f x) (\<lambda>y. bindE (mapE f xs) (\<lambda>ys. Inr (y # ys)))"

text \<open>\<open>x[k]\<close> for a string \<open>k\<close>: only a \<open>dict\<close> can be subscripted by a string.\<close>

fun subscript :: "json \<Rightarrow> string \<Rightarrow> error + json" where
  "subscript (JObj kvs) k = (case map_of kvs k of None \<Rightarrow> Inl KeyError | Some v \<Rightarrow> Inr v)"
| "subscript _ k = Inl TypeError"

text \<open>The value of \<open>x[k]\<close> where the subscript is known to succeed (\<open>None\<close> otherwise).\<close>

definition field :: "json \<Rightarrow> string \<Rightarrow> json" where
  "field x k = (case subscript x k of Inr v \<Rightarrow> v | Inl _ \<Rightarrow> JNull)"

text \<open>Python's truth test, used by \<open>not card['closed']\<close>.\<close>

fun truthy :: "json \<Rightarrow> bool" where
  "truthy JNull = False"
| "truthy (JBool b) = b"
| "truthy (JNum r) = (r \<noteq> 0)"
| "truthy (JStr s) = (s \<noteq> [])"
| "truthy (JArr xs) = (xs \<noteq> [])"
| "truthy (JObj kvs) = (kvs \<noteq> [])"

text \<open>
  \<open>k in x\<close> for a string \<open>k\<close>: key membership in a \<open>dict\<close>, element membership in a
  \<open>list\<close>, substring test in a \<open>str\<close>; the other values are not iterable.
\<close>

fun py_in :: "string \<Rightarrow> json \<Rightarrow> error + bool" where
  "py_in k (JObj kvs) = Inr (k \<in> set (map fst kvs))"
| "py_in k (JArr xs) = Inr (JStr k \<in> set xs)"
| "py_in k (JStr s) = Inr (sublist k s)"
| "py_in k _ = Inl TypeError"

text \<open>
  Iterating a value: the elements of a \<open>list\<close>, the keys of a \<open>dict\<close>, the characters of
  a \<open>str\<close>.
\<close>

fun py_iter :: "json \<Rightarrow> error + json list" where
  "py_iter (JArr xs) = Inr xs"
| "py_iter (JObj kvs) = Inr (map (\<lambda>kv. JStr (fst kv)) kvs)"
| "py_iter (JStr s) = Inr (map (\<lambda>c. JStr [c]) s)"
| "py_iter _ = Inl TypeError"

text \<open>
  Hashable values, as \<open>dict\<close> keys and \<open>set\<close> elements see them: \<open>True == 1 == 1.0\<close>
  with equal hashes, so booleans and numbers share one constructor; \<open>list\<close> and \<open>dict\<close>
  are unhashable.
\<close>

datatype hkey = HNone | HNum rat | HStr string

fun py_hash :: "json \<Rightarrow> error + hkey" where
  "py_hash JNull = Inr HNone"
| "py_hash (JBool b) = Inr (HNum (of_bool b))"
| "py_hash (JNum r) = Inr (HNum r)"
| "py_hash (JStr s) = Inr (HStr s)"
| "py_hash (JArr xs) = Inl TypeError"
| "py_hash (JObj kvs) = Inl TypeError"

text \<open>
  \<open>xs.sort(...)\<close> exists on lists only; \<open>actions[-1]\<close> is the last element of a list.
\<close>

fun as_list :: "json \<Rightarrow> error + json list" where
  "as_list (JArr xs) = Inr xs"
| "as_list _ = Inl AttributeError"

definition last_item :: "'a list \<Rightarrow> error + 'a" where
  "last_item xs = (if xs = [] then Inl IndexError else Inr (last xs))"

subsection \<open>Sorting by \<open>pos\<close>\<close>

text \<open>
  \<open>trello_lists.sort(key=lambda x: x['pos'])\<close> computes every key first, then sorts
  stably with \<open><\<close> on the keys. A list of fewer than two elements is never compared.
  Numbers (and booleans, which are numbers) compare by value, strings by code point;
  comparing \<open>None\<close> or a \<open>dict\<close> with anything, or values of two different kinds, raises
  \<open>TypeError\<close>, and a sort of two or more elements cannot finish without comparing each
  element. Keys that are all lists compare element by element in Python; that case is
  not covered here and is reported as \<open>TypeError\<close> as well.
\<close>

fun is_number :: "json \<Rightarrow> bool" where
  "is_number (JNum r) = True"
| "is_number (JBool b) = True"
| "is_number _ = False"

fun number_of :: "json \<Rightarrow> rat" where
  "number_of (JNum r) = r"
| "number_of (JBool b) = of_bool b"
| "number_of _ = 0"

fun is_string :: "json \<Rightarrow> bool" where
  "is_string (JStr s) = True"
| "is_string _ = False"

fun string_of :: "json \<Rightarrow> string" where
  "string_of (JStr s) = s"
| "string_of _ = []"

definition sort_by_pos :: "json list \<Rightarrow> error + json list" where
  "sort_by_pos xs =
     bindE (mapE (\<lambda>x. subscript x ''pos'') xs) (\<lambda>ks.
       if length xs \<le> 1 then Inr xs
       else if list_all is_number ks then Inr (sort_key (\<lambda>x. number_of (field x ''pos'')) xs)
       else if list_all is_string ks then Inr (sort_key (\<lambda>x. string_of (field x ''pos'')) xs)
       else Inl TypeError)"

subsection \<open>Instants and sorting by \<open>date\<close>\<close>

text \<open>
  \<open>isoparse\<close> (from \<open>dateutil\<close>) is a parameter of the model: it maps the value of a
  \<open>date\<close> field to a \<open>datetime\<close> or raises. A \<open>datetime\<close> is naive or timezone-aware,
  with microsecond resolution; two of the same kind compare and subtract by their
  position on the time line, a naive and an aware one raise \<open>TypeError\<close> on \<open><\<close> and
  on \<open>-\<close>. A \<open>timedelta\<close> is a number of microseconds.
\<close>

datatype instant = Naive int | Aware int

fun micros :: "instant \<Rightarrow> int" where
  "micros (Naive t) = t"
| "micros (Aware t) = t"

fun is_aware :: "instant \<Rightarrow> bool" where
  "is_aware (Naive t) = False"
| "is_aware (Aware t) = True"

definition time_sub :: "instant \<Rightarrow> instant \<Rightarrow> error + int" where
  "time_sub a b = (if is_aware a = is_aware b then Inr (micros a - micros b) else Inl TypeError)"

definition date_key :: "(json \<Rightarrow> error + instant) \<Rightarrow> json \<Rightarrow> error + instant" where
  "date_key isoparse x = bindE (subscript x ''date'') isoparse"

definition date_of :: "(json \<Rightarrow> error + instant) \<Rightarrow> json \<Rightarrow> instant" where
  "date_of isoparse x = (case date_key isoparse x of Inr t \<Rightarrow> t | Inl _ \<Rightarrow> Naive 0)"

definition sort_by_date :: "(json \<Rightarrow> error + instant) \<Rightarrow> json list \<Rightarrow> error + json list" where
  "sort_by_date isoparse xs =
     bindE (mapE (date_key isoparse) xs) (\<lambda>ks.
       if length xs \<le> 1 then Inr xs
       else if list_all is_aware ks \<or> list_all (\<lambda>k. \<not> is_aware k) ks
         then Inr (sort_key (\<lambda>x. micros (date_of isoparse x)) xs)
       else Inl TypeError)"

section \<open>The records\<close>

text \<open>
  Modelled from the spec: the classes \<open>Group\<close> and \<open>Sort\<close> of \<open>utils.sorts\<close>, a
  module that is not among the sources. A \<open>Group\<close> has a name and a set of card
  identifiers, empty when the group is made from its name; a \<open>Sort\<close> has a name, a
  sequence of groups and a duration. A card identifier is the card's name as a set
  element, or the value the card mapping gives.
\<close>

datatype 'v card_data = Raw hkey | Mapped 'v

record 'v Group =
  group_name :: json
  cards :: "'v card_data set"

record 'v Sort =
  sort_name :: json
  groups :: "'v Group list"
  total_sort_time :: int

section \<open>\<open>parse_board\<close>\<close>

text \<open>Lines 29 to 34: one fresh group per list, stored under the list's id.\<close>

fun make_groups ::
  "json list \<Rightarrow> (hkey \<times> 'v Group) list \<Rightarrow> error + (hkey \<times> 'v Group) list" where
  "make_groups [] groups_by_id = Inr groups_by_id"
| "make_groups (trello_list # rest) groups_by_id =
     bindE (subscript trello_list ''name'') (\<lambda>group_name.
     bindE (subscript trello_list ''id'') (\<lambda>list_id.
     bindE (py_hash list_id) (\<lambda>k.
       make_groups rest
         (AList.update k \<lparr>group_name = group_name, cards = {}\<rparr> groups_by_id))))"

text \<open>Line 38: the cards that are not closed.\<close>

fun open_cards :: "json list \<Rightarrow> error + json list" where
  "open_cards [] = Inr []"
| "open_cards (crd # rest) =
     bindE (subscript crd ''closed'') (\<lambda>closed.
     bindE (open_cards rest) (\<lambda>cs.
       Inr (if \<not> truthy closed then crd # cs else cs)))"

text \<open>
  Lines 44 to 48: the identifier of a card. With a mapping, \<open>card_mapping[card['name']]\<close>
  hashes the name and looks it up among the mapping's string keys; without, the name
  itself is hashed when it is added to the set.
\<close>

definition card_ident :: "(string \<rightharpoonup> 'v) option \<Rightarrow> json \<Rightarrow> error + 'v card_data" where
  "card_ident card_mapping crd =
     (case card_mapping of
        Some cm \<Rightarrow>
          bindE (subscript crd ''name'') (\<lambda>n.
          bindE (py_hash n) (\<lambda>h.
            case h of
              HStr s \<Rightarrow> (case cm s of None \<Rightarrow> Inl KeyError | Some v \<Rightarrow> Inr (Mapped v))
            | _ \<Rightarrow> Inl KeyError))
      | None \<Rightarrow>
          bindE (subscript crd ''name'') (\<lambda>n.
          bindE (py_hash n) (\<lambda>h. Inr (Raw h))))"

text \<open>Lines 40 to 48: each open card is added to the group of its list.\<close>

fun assign_cards ::
  "(string \<rightharpoonup> 'v) option \<Rightarrow> json list \<Rightarrow> (hkey \<times> 'v Group) list
    \<Rightarrow> error + (hkey \<times> 'v Group) list" where
  "assign_cards card_mapping [] groups_by_id = Inr groups_by_id"
| "assign_cards card_mapping (crd # rest) groups_by_id =
     bindE (subscript crd ''idList'') (\<lambda>group_id.
     bindE (py_hash group_id) (\<lambda>k.
       case map_of groups_by_id k of
         None \<Rightarrow> Inl KeyError
       | Some grp \<Rightarrow>
           bindE (card_ident card_mapping crd) (\<lambda>card_data.
             assign_cards card_mapping rest
               (AList.update k (grp\<lparr>cards := insert card_data (cards grp)\<rparr>)
                  groups_by_id))))"

text \<open>Lines 59 to 66: the test that keeps an action.\<close>

definition is_valid :: "json \<Rightarrow> json \<Rightarrow> error + bool" where
  "is_valid action_type action_data =
     bindE (if action_type = JStr ''updateCard'' then py_in ''listBefore'' action_data
            else Inr False) (\<lambda>moved.
       if moved then Inr True
       else if action_type = JStr ''createList'' then Inr True
       else if action_type = JStr ''updateList''
         then bindE (subscript action_data ''old'') (py_in ''name'')
       else Inr False)"

text \<open>Lines 54 to 66.\<close>

fun valid_actions :: "json list \<Rightarrow> error + json list" where
  "valid_actions [] = Inr []"
| "valid_actions (action # rest) =
     bindE (subscript action ''data'') (\<lambda>action_data.
     bindE (subscript action ''type'') (\<lambda>action_type.
     bindE (is_valid action_type action_data) (\<lambda>keep.
     bindE (valid_actions rest) (\<lambda>vs.
       Inr (if keep then action # vs else vs)))))"

text \<open>Lines 71 and 72: \<open>next\<close> of the generator of list creations.\<close>

definition first_list :: "json list \<Rightarrow> error + json" where
  "first_list vs =
     (case find (\<lambda>action. field action ''type'' = JStr ''createList'') vs of
        None \<Rightarrow> Inl StopIteration
      | Some action \<Rightarrow> Inr action)"

text \<open>An in-place change of the list stored under a key of the document.\<close>

fun set_item :: "json \<Rightarrow> string \<Rightarrow> json \<Rightarrow> json" where
  "set_item (JObj kvs) k v = JObj (AList.update k v kvs)"
| "set_item d k v = d"

text \<open>
  Lines 24 to 82, on the decoded document. The two \<open>sort\<close> calls change the document
  in place, so the function returns the document as it leaves it, next to the \<open>Sort\<close>.
\<close>

definition parse_data ::
  "(json \<Rightarrow> error + instant) \<Rightarrow> (string \<rightharpoonup> 'v) option \<Rightarrow> json
    \<Rightarrow> error + ('v Sort \<times> json)" where
  "parse_data isoparse card_mapping data =
     bindE (subscript data ''lists'') (\<lambda>lists0.
     bindE (as_list lists0) (\<lambda>lists1.
     bindE (sort_by_pos lists1) (\<lambda>trello_lists.
     bindE (make_groups trello_lists []) (\<lambda>groups0.
     bindE (subscript data ''cards'') (\<lambda>cards0.
     bindE (py_iter cards0) (\<lambda>cards1.
     bindE (open_cards cards1) (\<lambda>cs.
     bindE (assign_cards card_mapping cs groups0) (\<lambda>groups_by_id.
     bindE (subscript data ''actions'') (\<lambda>actions0.
     bindE (as_list actions0) (\<lambda>actions1.
     bindE (sort_by_date isoparse actions1) (\<lambda>actions.
     bindE (valid_actions actions) (\<lambda>vs.
     bindE (first_list vs) (\<lambda>fl.
     bindE (date_key isoparse fl) (\<lambda>start_time.
     bindE (last_item actions) (\<lambda>la.
     bindE (date_key isoparse la) (\<lambda>end_time.
     bindE (time_sub end_time start_time) (\<lambda>total.
     bindE (subscript data ''name'') (\<lambda>nm.
       Inr (\<lparr>sort_name = nm,
             groups = filter (\<lambda>grp. cards grp \<noteq> {}) (map snd groups_by_id),
             total_sort_time = total\<rparr>,
            set_item (set_item data ''lists'' (JArr trello_lists))
              ''actions'' (JArr actions))))))))))))))))))))"

text \<open>
  \<open>parse_board\<close> itself: \<open>f\<close> is what \<open>json.load\<close> makes of the stream, a decoded
  document or an exception.
\<close>

definition parse_board ::
  "(json \<Rightarrow> error + instant) \<Rightarrow> (string \<rightharpoonup> 'v) option \<Rightarrow> error + json \<Rightarrow> error + 'v Sort" where
  "parse_board isoparse card_mapping f =
     bindE f (\<lambda>data. bindE (parse_data isoparse card_mapping data) (\<lambda>r. Inr (fst r)))"

section \<open>The batch driver\<close>

text \<open>
  The file system is a parameter: what \<open>os.listdir\<close> returns for a directory (or
  raises), what \<open>os.path.isfile\<close> answers for a path, and what \<open>open(path, 'r')\<close>
  followed by \<open>json.load\<close> gives: \<open>open\<close> raises, or the stream decodes to a
  document or an exception. \<open>os.path.join\<close> is the POSIX one.
\<close>

record filesystem =
  listdir :: "string \<Rightarrow> error + string list"
  isfile :: "string \<Rightarrow> bool"
  open_r :: "string \<Rightarrow> error + (error + json)"

definition path_join :: "string \<Rightarrow> string \<Rightarrow> string" where
  "path_join a b =
     (if prefix ''/'' b then b
      else if a = [] \<or> suffix ''/'' a then a @ b
      else a @ ''/'' @ b)"

text \<open>Lines 94 to 97: the loop of the generator.\<close>

fun json_paths :: "filesystem \<Rightarrow> string \<Rightarrow> string list \<Rightarrow> string list" where
  "json_paths fs path [] = []"
| "json_paths fs path (file # files) =
     (let file_path = path_join path file
      in if isfile fs file_path \<and> suffix ''.json'' file
         then file_path # json_paths fs path files
         else json_paths fs path files)"

definition get_paths_to_jsons_in_dir :: "filesystem \<Rightarrow> string \<Rightarrow> error + string list" where
  "get_paths_to_jsons_in_dir fs path =
     bindE (listdir fs path) (\<lambda>files. Inr (json_paths fs path files))"

definition parse_sorts_in_dir ::
  "filesystem \<Rightarrow> (json \<Rightarrow> error + instant) \<Rightarrow> (string \<rightharpoonup> 'v) option \<Rightarrow> string
    \<Rightarrow> error + 'v Sort list" where
  "parse_sorts_in_dir fs isoparse card_mapping path =
     bindE (get_paths_to_jsons_in_dir fs path) (\<lambda>trello_json_paths.
       mapE (\<lambda>p. bindE (open_r fs p) (\<lambda>f. parse_board isoparse card_mapping f))
         trello_json_paths)"

section \<open>Notions the properties are stated with\<close>





text \<open>The three kinds of action the code keeps (lines 59 to 66), as a predicate.\<close>

definition kept :: "json \<Rightarrow> bool" where
  "kept action \<longleftrightarrow>
     (field action ''type'' = JStr ''updateCard'' \<and>
        py_in ''listBefore'' (field action ''data'') = Inr True) \<or>
     field action ''type'' = JStr ''createList'' \<or>
     (field action ''type'' = JStr ''updateList'' \<and>
        bindE (subscript (field action ''data'') ''old'') (py_in ''name'') = Inr True)"


text \<open>A card is closed when its \<open>closed\<close> field is true in Python's sense.\<close>

definition is_closed :: "json \<Rightarrow> bool" where
  "is_closed crd \<longleftrightarrow> truthy (field crd ''closed'')"

definition is_creation :: "json \<Rightarrow> bool" where
  "is_creation action \<longleftrightarrow> field action ''type'' = JStr ''createList''"

text \<open>The directory entries the generator yields (line 96).\<close>

definition is_json_file :: "filesystem \<Rightarrow> string \<Rightarrow> string \<Rightarrow> bool" where
  "is_json_file fs path file \<longleftrightarrow> isfile fs (path_join path file) \<and> suffix ''.json'' file"

section \<open>Example documents\<close>

text \<open>
  A stand-in for \<open>isoparse\<close> on the timestamps of the examples: each is mapped to its
  aware instant, in microseconds since the epoch; anything else is refused.
\<close>

definition example_isoparse :: "json \<Rightarrow> error + instant" where
  "example_isoparse j =
     (if j = JStr ''2021-03-01T10:00:00Z'' then Inr (Aware 1614592800000000)
      else if j = JStr ''2021-03-01T10:05:00Z'' then Inr (Aware 1614593100000000)
      else if j = JStr ''2021-03-01T10:10:00Z'' then Inr (Aware 1614593400000000)
      else if j = JStr ''2021-03-01T10:15:00Z'' then Inr (Aware 1614593700000000)
      else if j = JStr ''2021-03-01T10:20:00Z'' then Inr (Aware 1614594000000000)
      else if j = JStr ''2021-03-01T10:30:00Z'' then Inr (Aware 1614594600000000)
      else Inl ValueError)"

definition mk_list :: "string \<Rightarrow> string \<Rightarrow> rat \<Rightarrow> json" where
  "mk_list i n p = JObj [(''id'', JStr i), (''name'', JStr n), (''pos'', JNum p)]"

definition mk_card :: "string \<Rightarrow> string \<Rightarrow> bool \<Rightarrow> json" where
  "mk_card n l c = JObj [(''name'', JStr n), (''idList'', JStr l), (''closed'', JBool c)]"

definition mk_action :: "string \<Rightarrow> string \<Rightarrow> json \<Rightarrow> json" where
  "mk_action t d x = JObj [(''type'', JStr t), (''date'', JStr d), (''data'', x)]"

definition study_lists :: "json list" where
  "study_lists =
     [mk_list ''L2'' ''Done'' 2, mk_list ''L1'' ''Todo'' 1,
      mk_list ''L3'' ''Later'' 2, mk_list ''L4'' ''Unused'' (1 / 2)]"

definition study_cards :: "json list" where
  "study_cards =
     [mk_card ''apple'' ''L1'' False, mk_card ''pear'' ''L2'' True,
      mk_card ''fig'' ''L2'' False, mk_card ''plum'' ''L3'' False,
      mk_card ''kiwi'' ''L9'' True]"

definition study_actions :: "json list" where
  "study_actions =
     [mk_action ''updateCard'' ''2021-03-01T10:20:00Z'' (JObj [(''listBefore'', JObj [])]),
      mk_action ''createList'' ''2021-03-01T10:05:00Z'' (JObj []),
      mk_action ''commentCard'' ''2021-03-01T10:30:00Z'' (JObj []),
      mk_action ''createList'' ''2021-03-01T10:00:00Z'' (JObj []),
      mk_action ''updateList'' ''2021-03-01T10:15:00Z''
        (JObj [(''old'', JObj [(''name'', JStr ''Maybe'')])]),
      mk_action ''updateCard'' ''2021-03-01T10:10:00Z''
        (JObj [(''old'', JObj [(''desc'', JStr ''x'')])])]"

definition study :: json where
  "study =
     JObj [(''name'', JStr ''Study 1''), (''lists'', JArr study_lists),
           (''cards'', JArr study_cards), (''actions'', JArr study_actions)]"

text \<open>What \<open>parse_board\<close> returns for \<open>study\<close>, without and with a card mapping.\<close>

definition study_sort :: "nat Sort" where
  "study_sort =
     \<lparr>sort_name = JStr ''Study 1'',
      groups =
        [\<lparr>group_name = JStr ''Todo'', cards = {Raw (HStr ''apple'')}\<rparr>,
         \<lparr>group_name = JStr ''Done'', cards = {Raw (HStr ''fig'')}\<rparr>,
         \<lparr>group_name = JStr ''Later'', cards = {Raw (HStr ''plum'')}\<rparr>],
      total_sort_time = 1800000000\<rparr>"

definition fruit_ids :: "string \<rightharpoonup> nat" where
  "fruit_ids = [''apple'' \<mapsto> 1, ''fig'' \<mapsto> 2, ''plum'' \<mapsto> 3]"

definition study_sort_mapped :: "nat Sort" where
  "study_sort_mapped =
     \<lparr>sort_name = JStr ''Study 1'',
      groups =
        [\<lparr>group_name = JStr ''Todo'', cards = {Mapped 1}\<rparr>,
         \<lparr>group_name = JStr ''Done'', cards = {Mapped 2}\<rparr>,
         \<lparr>group_name = JStr ''Later'', cards = {Mapped 3}\<rparr>],
      total_sort_time = 1800000000\<rparr>"

text \<open>The same board with no list creation among its actions.\<close>

definition quiet_actions :: "json list" where
  "quiet_actions =
     [mk_action ''updateCard'' ''2021-03-01T10:20:00Z'' (JObj [(''listBefore'', JObj [])]),
      mk_action ''commentCard'' ''2021-03-01T10:30:00Z'' (JObj [])]"

definition quiet_study :: json where
  "quiet_study =
     JObj [(''name'', JStr ''Study 1''), (''lists'', JArr study_lists),
           (''cards'', JArr study_cards), (''actions'', JArr quiet_actions)]"

text \<open>
  The document as the first run leaves it: lists and actions sorted in place.
\<close>

definition study_after :: json where
  "study_after =
     JObj [(''name'', JStr ''Study 1''),
           (''lists'', JArr [mk_list ''L4'' ''Unused'' (1 / 2), mk_list ''L1'' ''Todo'' 1,
              mk_list ''L2'' ''Done'' 2, mk_list ''L3'' ''Later'' 2]),
           (''cards'', JArr study_cards),
           (''actions'', JArr [study_actions ! 3, study_actions ! 1, study_actions ! 5,
              study_actions ! 4, study_actions ! 0, study_actions ! 2])]"

text \<open>A mapping that lacks the open card \<open>fig\<close>.\<close>

definition fig_missing :: "string \<rightharpoonup> nat" where
  "fig_missing = [''apple'' \<mapsto> 1, ''plum'' \<mapsto> 3]"

text \<open>
  A board with two lists of one id: the later one takes over the group that the
  earlier one has placed in the dictionary.
\<close>

definition twin_lists :: "json list" where
  "twin_lists = [mk_list ''a'' ''A'' 1, mk_list ''b'' ''B'' 2, mk_list ''a'' ''C'' 3]"

definition twin_board :: json where
  "twin_board =
     JObj [(''name'', JStr ''Twins''), (''lists'', JArr twin_lists),
           (''cards'', JArr [mk_card ''x'' ''a'' False, mk_card ''y'' ''b'' False]),
           (''actions'', JArr [mk_action ''createList'' ''2021-03-01T10:00:00Z'' (JObj [])])]"

definition twin_sort :: "nat Sort" where
  "twin_sort =
     \<lparr>sort_name = JStr ''Twins'',
      groups =
        [\<lparr>group_name = JStr ''C'', cards = {Raw (HStr ''x'')}\<rparr>,
         \<lparr>group_name = JStr ''B'', cards = {Raw (HStr ''y'')}\<rparr>],
      total_sort_time = 0\<rparr>"

text \<open>
  A directory with a text file, two exports and a subdirectory whose name ends in
  \<open>.json\<close>.
\<close>

definition example_fs :: filesystem where
  "example_fs =
     \<lparr>listdir = (\<lambda>p. if p = ''exports''
                    then Inr [''notes.txt'', ''a.json'', ''old.json'', ''b.json'']
                    else Inl OSError),
      isfile = (\<lambda>p. p = ''exports/notes.txt'' \<or> p = ''exports/a.json'' \<or> p = ''exports/b.json''),
      open_r = (\<lambda>p. if p = ''exports/a.json'' then Inr (Inr study)
                   else if p = ''exports/b.json'' then Inr (Inr twin_board)
                   else if p = ''exports/notes.txt'' then Inr (Inl ValueError)
                   else Inl OSError)\<rparr>"

section \<open>Auxiliary facts\<close>

subsection \<open>Exceptions\<close>

lemma bindE_Inr_iff: "bindE r f = Inr y \<longleftrightarrow> (\<exists>v. r = Inr v \<and> f v = Inr y)"
  by (cases r) (simp_all add: bindE_def)

lemma bindE_Inr [simp]: "bindE (Inr v) f = f v"
  by (simp add: bindE_def)

lemma bindE_Inl [simp]: "bindE (Inl e) f = Inl e"
  by (simp add: bindE_def)

lemma mapE_Inr_iff: "mapE f xs = Inr ys \<longleftrightarrow> map f xs = map Inr ys"
proof (induction xs arbitrary: ys)
  case Nil
  then show ?case by auto
next
  case (Cons x xs)
  show ?case
  proof (cases ys)
    case Nil
    then show ?thesis by (auto simp: bindE_Inr_iff)
  next
    case (Cons y ys')
    with Cons.IH [of ys'] show ?thesis by (auto simp: bindE_Inr_iff)
  qed
qed

lemma field_eq: "subscript x k = Inr v \<Longrightarrow> field x k = v"
  by (simp add: field_def)

lemma date_of_eq: "date_key isoparse x = Inr t \<Longrightarrow> date_of isoparse x = t"
  by (simp add: date_of_def)

subsection \<open>The two sorts\<close>

lemma mapE_subscript_iff:
  "mapE (\<lambda>x. subscript x k) xs = Inr ks \<longleftrightarrow>
     (\<forall>x \<in> set xs. \<exists>v. subscript x k = Inr v) \<and> ks = map (\<lambda>x. field x k) xs"
proof (induction xs arbitrary: ks)
  case Nil
  then show ?case by auto
next
  case (Cons x xs)
  then show ?case by (auto simp: bindE_Inr_iff field_eq)
qed

lemma sort_by_pos_Inr_iff:
  "sort_by_pos xs = Inr ys \<longleftrightarrow>
     (\<forall>x \<in> set xs. \<exists>v. subscript x ''pos'' = Inr v) \<and>
     (if length xs \<le> 1 then ys = xs
      else if \<forall>x \<in> set xs. is_number (field x ''pos'')
        then ys = sort_key (\<lambda>x. number_of (field x ''pos'')) xs
      else (\<forall>x \<in> set xs. is_string (field x ''pos'')) \<and>
        ys = sort_key (\<lambda>x. string_of (field x ''pos'')) xs)"
  unfolding sort_by_pos_def bindE_Inr_iff mapE_subscript_iff
  by (auto simp: list_all_iff)

lemma sort_by_pos_set: "sort_by_pos xs = Inr ys \<Longrightarrow> set ys = set xs \<and> length ys = length xs"
  by (auto simp: sort_by_pos_Inr_iff split: if_splits)

lemma sort_by_pos_idem:
  assumes "sort_by_pos xs = Inr ys"
  shows "sort_by_pos ys = Inr ys"
proof -
  have s: "set ys = set xs" "length ys = length xs"
    using sort_by_pos_set [OF assms] by simp_all
  have i: "sort_key f (sort_key f zs) = sort_key f zs" for f :: "json \<Rightarrow> 'k::linorder" and zs
    by (simp add: sort_key_id_if_sorted)
  from assms show ?thesis
    unfolding sort_by_pos_Inr_iff [of ys] s
    by (auto simp: sort_by_pos_Inr_iff [of xs] i split: if_splits)
qed

lemma mapE_date_key_iff:
  "mapE (date_key isoparse) xs = Inr ks \<longleftrightarrow>
     (\<forall>x \<in> set xs. \<exists>t. date_key isoparse x = Inr t) \<and> ks = map (date_of isoparse) xs"
proof (induction xs arbitrary: ks)
  case Nil
  then show ?case by auto
next
  case (Cons x xs)
  then show ?case by (auto simp: bindE_Inr_iff date_of_eq)
qed

lemma sort_by_date_Inr_iff:
  "sort_by_date isoparse xs = Inr ys \<longleftrightarrow>
     (\<forall>x \<in> set xs. \<exists>t. date_key isoparse x = Inr t) \<and>
     (if length xs \<le> 1 then ys = xs
      else ((\<forall>x \<in> set xs. is_aware (date_of isoparse x)) \<or>
            (\<forall>x \<in> set xs. \<not> is_aware (date_of isoparse x))) \<and>
        ys = sort_key (\<lambda>x. micros (date_of isoparse x)) xs)"
  unfolding sort_by_date_def bindE_Inr_iff mapE_date_key_iff
  by (auto simp: list_all_iff)

lemma sort_by_date_set:
  "sort_by_date isoparse xs = Inr ys \<Longrightarrow> set ys = set xs \<and> length ys = length xs"
  by (auto simp: sort_by_date_Inr_iff split: if_splits)

lemma sorted_short: "length xs \<le> 1 \<Longrightarrow> sorted (map f xs)"
  by (cases xs) auto

lemma sort_by_date_sorted:
  "sort_by_date isoparse xs = Inr ys \<Longrightarrow> sorted (map (\<lambda>x. micros (date_of isoparse x)) ys)"
  by (auto simp: sort_by_date_Inr_iff sorted_short split: if_splits)

lemma sort_by_date_idem:
  assumes "sort_by_date isoparse xs = Inr ys"
  shows "sort_by_date isoparse ys = Inr ys"
proof -
  have s: "set ys = set xs" "length ys = length xs"
    using sort_by_date_set [OF assms] by simp_all
  have i: "sort_key f (sort_key f zs) = sort_key f zs" for f :: "json \<Rightarrow> int" and zs
    by (simp add: sort_key_id_if_sorted)
  from assms show ?thesis
    unfolding sort_by_date_Inr_iff [of isoparse ys] s
    by (auto simp: sort_by_date_Inr_iff [of isoparse xs] i split: if_splits)
qed

subsection \<open>What a successful run has computed\<close>

lemma parse_data_InrE:
  assumes "parse_data isoparse card_mapping data = Inr (s, data')"
  obtains lists1 trello_lists groups0 cards0 cards1 cs groups_by_id actions1 actions vs fl
    start_time end_time nm
  where "subscript data ''lists'' = Inr (JArr lists1)"
    and "sort_by_pos lists1 = Inr trello_lists"
    and "make_groups trello_lists [] = Inr groups0"
    and "subscript data ''cards'' = Inr cards0"
    and "py_iter cards0 = Inr cards1"
    and "open_cards cards1 = Inr cs"
    and "assign_cards card_mapping cs groups0 = Inr groups_by_id"
    and "subscript data ''actions'' = Inr (JArr actions1)"
    and "sort_by_date isoparse actions1 = Inr actions"
    and "valid_actions actions = Inr vs"
    and "first_list vs = Inr fl"
    and "date_key isoparse fl = Inr start_time"
    and "actions \<noteq> []"
    and "date_key isoparse (last actions) = Inr end_time"
    and "time_sub end_time start_time = Inr (total_sort_time s)"
    and "subscript data ''name'' = Inr nm"
    and "sort_name s = nm"
    and "groups s = filter (\<lambda>grp. cards grp \<noteq> {}) (map snd groups_by_id)"
    and "data' = set_item (set_item data ''lists'' (JArr trello_lists)) ''actions'' (JArr actions)"
proof -
  from assms obtain lists0 lists1 trello_lists groups0 cards0 cards1 cs groups_by_id
      actions0 actions1 actions vs fl start_time la end_time total nm
    where a: "subscript data ''lists'' = Inr lists0" "as_list lists0 = Inr lists1"
      "sort_by_pos lists1 = Inr trello_lists"
      "make_groups trello_lists [] = Inr groups0"
      "subscript data ''cards'' = Inr cards0"
      "py_iter cards0 = Inr cards1"
      "open_cards cards1 = Inr cs"
      "assign_cards card_mapping cs groups0 = Inr groups_by_id"
      "subscript data ''actions'' = Inr actions0" "as_list actions0 = Inr actions1"
      "sort_by_date isoparse actions1 = Inr actions"
      "valid_actions actions = Inr vs"
      "first_list vs = Inr fl"
      "date_key isoparse fl = Inr start_time"
      "last_item actions = Inr la"
      "date_key isoparse la = Inr end_time"
      "time_sub end_time start_time = Inr total"
      "subscript data ''name'' = Inr nm"
      and r: "(s, data') = (\<lparr>sort_name = nm,
           groups = filter (\<lambda>grp. cards grp \<noteq> {}) (map snd groups_by_id),
           total_sort_time = total\<rparr>,
           set_item (set_item data ''lists'' (JArr trello_lists)) ''actions'' (JArr actions))"
    unfolding parse_data_def bindE_Inr_iff by (metis sum.inject(2))
  have l0: "lists0 = JArr lists1" using a(2) by (cases lists0) simp_all
  have a0: "actions0 = JArr actions1" using a(10) by (cases actions0) simp_all
  have la: "actions \<noteq> []" "la = last actions"
    using a(15) by (auto simp: last_item_def split: if_splits)
  from r have t: "total_sort_time s = total" by auto
  show ?thesis
    using that [of lists1 trello_lists groups0 cards0 cards1 cs groups_by_id actions1
        actions vs fl start_time end_time nm] a l0 a0 la r t by auto
qed

lemma parse_board_InrE:
  assumes "parse_board isoparse card_mapping (Inr data) = Inr s"
  obtains data' where "parse_data isoparse card_mapping data = Inr (s, data')"
  using assms by (auto simp: parse_board_def bindE_Inr_iff)

subsection \<open>The actions\<close>

lemma is_valid_kept:
  assumes "subscript a ''data'' = Inr d" "subscript a ''type'' = Inr t" "is_valid t d = Inr b"
  shows "b = kept a"
  using assms(3)
  unfolding is_valid_def kept_def field_eq [OF assms(1)] field_eq [OF assms(2)]
  by (auto simp: bindE_Inr_iff split: if_splits)

lemma valid_actions_filter: "valid_actions as = Inr vs \<Longrightarrow> vs = filter kept as"
proof (induction as arbitrary: vs)
  case Nil
  then show ?case by simp
next
  case (Cons a as)
  then show ?case by (auto simp: bindE_Inr_iff dest: is_valid_kept)
qed

lemma creation_kept: "is_creation a \<Longrightarrow> kept a"
  by (simp add: is_creation_def kept_def)

lemma find_filter_weaker: "(\<And>x. P x \<Longrightarrow> Q x) \<Longrightarrow> find P (filter Q xs) = find P xs"
  by (induction xs) auto

lemma first_list_find:
  assumes "valid_actions as = Inr vs" "first_list vs = Inr fl"
  shows "find is_creation as = Some fl"
proof -
  have "find is_creation vs = Some fl"
    using assms(2) unfolding first_list_def is_creation_def [abs_def]
    by (auto split: option.splits)
  then show ?thesis
    unfolding valid_actions_filter [OF assms(1)]
    by (simp add: find_filter_weaker creation_kept)
qed

lemma find_sorted_Min:
  "sorted (map f xs) \<Longrightarrow> find P xs = Some x \<Longrightarrow> f x = Min (f ` {y \<in> set xs. P y})"
proof (induction xs)
  case Nil
  then show ?case by simp
next
  case (Cons a xs)
  show ?case
  proof (cases "P a")
    case True
    with Cons.prems have x: "x = a" by simp
    have "Min (f ` {y \<in> set (a # xs). P y}) = f a"
    proof (rule Min_eqI)
      show "finite (f ` {y \<in> set (a # xs). P y})" by simp
      show "f a \<le> y" if "y \<in> f ` {y \<in> set (a # xs). P y}" for y
        using that Cons.prems(1) by auto
      show "f a \<in> f ` {y \<in> set (a # xs). P y}" using True by auto
    qed
    with x show ?thesis by simp
  next
    case False
    then have "{y \<in> set (a # xs). P y} = {y \<in> set xs. P y}" by auto
    with Cons False show ?thesis by simp
  qed
qed

lemma last_sorted_Max:
  assumes "sorted (map f xs)" "xs \<noteq> []"
  shows "f (last xs) = Max (f ` set xs)"
proof -
  have "Max (f ` set xs) = f (last xs)"
  proof (rule Max_eqI)
    show "finite (f ` set xs)" by simp
    show "f (last xs) \<in> f ` set xs" using assms(2) by simp
    show "y \<le> f (last xs)" if "y \<in> f ` set xs" for y
    proof -
      from that obtain i where i: "i < length xs" "y = f (xs ! i)"
        by (auto simp: in_set_conv_nth)
      have "map f xs ! i \<le> map f xs ! (length xs - 1)"
        using assms i by (intro sorted_nth_mono) auto
      with i assms(2) show ?thesis by (simp add: last_conv_nth)
    qed
  qed
  then show ?thesis by simp
qed

lemma time_sub_Inr: "time_sub a b = Inr d \<Longrightarrow> d = micros a - micros b"
  by (auto simp: time_sub_def split: if_splits)

lemma parse_data_times:
  assumes "parse_data isoparse card_mapping data = Inr (s, data')"
    and "subscript data ''actions'' = Inr (JArr acts)"
  obtains actions fl where "set actions = set acts"
    and "sorted (map (\<lambda>a. micros (date_of isoparse a)) actions)"
    and "actions \<noteq> []"
    and "find is_creation actions = Some fl"
    and "total_sort_time s =
           micros (date_of isoparse (last actions)) - micros (date_of isoparse fl)"
proof -
  from assms(1) obtain actions1 actions vs fl start_time end_time
    where a: "subscript data ''actions'' = Inr (JArr actions1)"
      "sort_by_date isoparse actions1 = Inr actions"
      "valid_actions actions = Inr vs"
      "first_list vs = Inr fl"
      "date_key isoparse fl = Inr start_time"
      "actions \<noteq> []"
      "date_key isoparse (last actions) = Inr end_time"
      "time_sub end_time start_time = Inr (total_sort_time s)"
    by (rule parse_data_InrE)
  from a(1) assms(2) have "actions1 = acts" by simp
  with a(2) have "set actions = set acts"
    by (simp add: sort_by_date_set)
  moreover have "sorted (map (\<lambda>a. micros (date_of isoparse a)) actions)"
    using a(2) by (rule sort_by_date_sorted)
  moreover have "find is_creation actions = Some fl"
    using a(3,4) by (rule first_list_find)
  moreover have "total_sort_time s =
      micros (date_of isoparse (last actions)) - micros (date_of isoparse fl)"
    using time_sub_Inr [OF a(8)] date_of_eq [OF a(5)] date_of_eq [OF a(7)] by simp
  ultimately show ?thesis using that a(6) by blast
qed

subsection \<open>Position order\<close>







subsection \<open>Groups and cards\<close>


lemma set_update_cases: "p \<in> set (AList.update k v al) \<Longrightarrow> p = (k, v) \<or> p \<in> set al"
  by (induction al) (auto split: if_splits)



lemma make_groups_no_cards:
  "make_groups ls d = Inr d' \<Longrightarrow> \<forall>p \<in> set d. cards (snd p) = {} \<Longrightarrow>
   \<forall>p \<in> set d'. cards (snd p) = {}"
proof (induction ls arbitrary: d)
  case Nil
  then show ?case by simp
next
  case (Cons l ls)
  from Cons.prems(1) obtain nm k
    where r: "make_groups ls (AList.update k \<lparr>group_name = nm, cards = {}\<rparr> d) = Inr d'"
    by (auto simp: bindE_Inr_iff)
  have "\<forall>p \<in> set (AList.update k \<lparr>group_name = nm, cards = {}\<rparr> d). cards (snd p) = {}"
  proof
    fix p assume "p \<in> set (AList.update k \<lparr>group_name = nm, cards = {}\<rparr> d)"
    then have "p = (k, \<lparr>group_name = nm, cards = {}\<rparr>) \<or> p \<in> set d"
      by (rule set_update_cases)
    with Cons.prems(2) show "cards (snd p) = {}" by (elim disjE) simp_all
  qed
  with Cons.IH [OF r] show ?case by blast
qed

lemma open_cards_filter:
  "open_cards xs = Inr ys \<Longrightarrow> ys = filter (\<lambda>c. \<not> is_closed c) xs"
proof (induction xs arbitrary: ys)
  case Nil
  then show ?case by simp
next
  case (Cons x xs)
  then show ?case by (auto simp: bindE_Inr_iff is_closed_def field_eq)
qed

lemma open_cards_of_open:
  "open_cards xs = Inr ys \<Longrightarrow> open_cards (filter (\<lambda>c. \<not> is_closed c) xs) = Inr ys"
proof (induction xs arbitrary: ys)
  case Nil
  then show ?case by simp
next
  case (Cons x xs)
  then show ?case by (auto simp: bindE_Inr_iff is_closed_def field_eq)
qed

lemma assign_cards_idents:
  "assign_cards m cs d = Inr d' \<Longrightarrow> \<forall>c \<in> set cs. \<exists>x. card_ident m c = Inr x"
proof (induction cs arbitrary: d)
  case Nil
  then show ?case by simp
next
  case (Cons c cs)
  then show ?case by (auto simp: bindE_Inr_iff split: option.splits)
qed


lemma assign_cards_origin:
  assumes "assign_cards m cs d = Inr d'" "p' \<in> set d'" "x \<in> cards (snd p')"
  shows "(\<exists>p \<in> set d. x \<in> cards (snd p)) \<or> (\<exists>c \<in> set cs. card_ident m c = Inr x)"
  using assms
proof (induction cs arbitrary: d)
  case Nil
  then show ?case by auto
next
  case (Cons c cs)
  from Cons.prems(1) obtain k g y where g: "map_of d k = Some g"
    and y: "card_ident m c = Inr y"
    and r: "assign_cards m cs (AList.update k (g\<lparr>cards := insert y (cards g)\<rparr>) d) = Inr d'"
    by (auto simp: bindE_Inr_iff split: option.splits)
  from Cons.IH [OF r Cons.prems(2,3)]
  consider p1 where "p1 \<in> set (AList.update k (g\<lparr>cards := insert y (cards g)\<rparr>) d)"
      "x \<in> cards (snd p1)"
    | "\<exists>c \<in> set cs. card_ident m c = Inr x"
    by blast
  then show ?case
  proof cases
    case 1
    from set_update_cases [OF 1(1)]
    have "p1 = (k, g\<lparr>cards := insert y (cards g)\<rparr>) \<or> p1 \<in> set d" .
    then show ?thesis
    proof
      assume "p1 = (k, g\<lparr>cards := insert y (cards g)\<rparr>)"
      with 1(2) have "x = y \<or> x \<in> cards g" by simp
      moreover from g have "(k, g) \<in> set d" by (rule map_of_SomeD)
      ultimately show ?thesis using y by force
    next
      assume "p1 \<in> set d"
      with 1(2) show ?thesis by blast
    qed
  next
    case 2
    then show ?thesis by auto
  qed
qed

lemma card_ident_mapped:
  assumes "card_ident (Some cm) c = Inr x"
  obtains n v where "subscript c ''name'' = Inr (JStr n)" "cm n = Some v" "x = Mapped v"
proof -
  from assms obtain nm h where a: "subscript c ''name'' = Inr nm" "py_hash nm = Inr h"
    and b: "(case h of HStr s \<Rightarrow> (case cm s of None \<Rightarrow> Inl KeyError | Some v \<Rightarrow> Inr (Mapped v))
             | _ \<Rightarrow> Inl KeyError) = Inr x"
    by (auto simp: card_ident_def bindE_Inr_iff)
  from b obtain n v where h: "h = HStr n" "cm n = Some v" "x = Mapped v"
    by (cases h) (auto split: option.splits)
  from a(2) h(1) have "nm = JStr n" by (cases nm) simp_all
  with a(1) h that show ?thesis by blast
qed

lemma parse_data_groups:
  assumes "parse_data isoparse m data = Inr (s, data')"
  obtains cards0 cards1 groups0 and groups_by_id :: "(hkey \<times> 'a Group) list"
  where "subscript data ''cards'' = Inr cards0"
    and "py_iter cards0 = Inr cards1"
    and "\<forall>p \<in> set groups0. cards (snd p) = {}"
    and "assign_cards m (filter (\<lambda>c. \<not> is_closed c) cards1) groups0 = Inr groups_by_id"
    and "groups s = filter (\<lambda>grp. cards grp \<noteq> {}) (map snd groups_by_id)"
proof -
  from assms(1) obtain trello_lists groups0 cards0 cards1 ocs
    and groups_by_id :: "(hkey \<times> 'a Group) list"
    where a: "make_groups trello_lists [] = Inr groups0"
      "subscript data ''cards'' = Inr cards0"
      "py_iter cards0 = Inr cards1"
      "open_cards cards1 = Inr ocs"
      "assign_cards m ocs groups0 = Inr groups_by_id"
      "groups s = filter (\<lambda>grp. cards grp \<noteq> {}) (map snd groups_by_id)"
    by (rule parse_data_InrE)
  from a(4) have "ocs = filter (\<lambda>c. \<not> is_closed c) cards1" by (rule open_cards_filter)
  moreover have "\<forall>p \<in> set groups0. cards (snd p) = {}"
    using make_groups_no_cards [OF a(1)] by simp
  ultimately show ?thesis using that a(2,3,5,6) by blast
qed

lemma parse_data_identifiers:
  assumes "parse_data isoparse m data = Inr (s, data')"
    and "g \<in> set (groups s)" "x \<in> cards g"
  obtains cards0 cards1 c where "subscript data ''cards'' = Inr cards0"
    and "py_iter cards0 = Inr cards1"
    and "c \<in> set cards1" "\<not> is_closed c" "card_ident m c = Inr x"
proof -
  from assms(1) obtain cards0 cards1 groups0 and groups_by_id :: "(hkey \<times> 'a Group) list"
    where a: "subscript data ''cards'' = Inr cards0"
      "py_iter cards0 = Inr cards1"
      "\<forall>p \<in> set groups0. cards (snd p) = {}"
      "assign_cards m (filter (\<lambda>c. \<not> is_closed c) cards1) groups0 = Inr groups_by_id"
      "groups s = filter (\<lambda>grp. cards grp \<noteq> {}) (map snd groups_by_id)"
    by (rule parse_data_groups)
  from assms(2) a(5) obtain p where p: "p \<in> set groups_by_id" "g = snd p" by auto
  with assms(3) have "x \<in> cards (snd p)" by simp
  from assign_cards_origin [OF a(4) p(1) this] a(3)
  obtain c where "c \<in> set cards1" "\<not> is_closed c" "card_ident m c = Inr x" by auto
  with that a(1,2) show ?thesis by blast
qed


subsection \<open>Running again\<close>

lemma parse_data_InrI:
  assumes "subscript data ''lists'' = Inr (JArr lists1)"
    and "sort_by_pos lists1 = Inr trello_lists"
    and "make_groups trello_lists [] = Inr groups0"
    and "subscript data ''cards'' = Inr cards0"
    and "py_iter cards0 = Inr cards1"
    and "open_cards cards1 = Inr cs"
    and "assign_cards card_mapping cs groups0 = Inr groups_by_id"
    and "subscript data ''actions'' = Inr (JArr actions1)"
    and "sort_by_date isoparse actions1 = Inr actions"
    and "valid_actions actions = Inr vs"
    and "first_list vs = Inr fl"
    and "date_key isoparse fl = Inr start_time"
    and "actions \<noteq> []"
    and "date_key isoparse (last actions) = Inr end_time"
    and "time_sub end_time start_time = Inr tot"
    and "subscript data ''name'' = Inr nm"
  shows "parse_data isoparse card_mapping data =
     Inr (\<lparr>sort_name = nm,
           groups = filter (\<lambda>grp. cards grp \<noteq> {}) (map snd groups_by_id),
           total_sort_time = tot\<rparr>,
          set_item (set_item data ''lists'' (JArr trello_lists)) ''actions'' (JArr actions))"
  unfolding parse_data_def by (simp add: assms last_item_def)

lemma subscript_set_item:
  "subscript data k0 = Inr v0 \<Longrightarrow>
   subscript (set_item data k v) k' = (if k' = k then Inr v else subscript data k')"
  by (cases data) (simp_all add: AList.update_conv')

lemma set_item_same: "subscript data k = Inr v \<Longrightarrow> set_item data k v = data"
  by (cases data) (auto simp: AList.update_triv split: option.splits)

lemma Sort_eqI:
  "sort_name s = n \<Longrightarrow> groups s = g \<Longrightarrow> total_sort_time s = t \<Longrightarrow>
   \<lparr>sort_name = n, groups = g, total_sort_time = t\<rparr> = (s :: 'v Sort)"
  by auto

lemma parse_data_without_closed:
  assumes "parse_data isoparse m data = Inr (s, data')"
    and "subscript data ''cards'' = Inr (JArr cs)"
  shows "\<exists>data''. parse_data isoparse m
           (set_item data ''cards'' (JArr (filter (\<lambda>c. \<not> is_closed c) cs))) = Inr (s, data'')"
proof -
  from assms(1) obtain lists1 trello_lists groups0 cards0 cards1 ocs
    and groups_by_id :: "(hkey \<times> 'a Group) list"
    and actions1 actions vs fl start_time end_time nm
    where a: "subscript data ''lists'' = Inr (JArr lists1)"
      "sort_by_pos lists1 = Inr trello_lists"
      "make_groups trello_lists [] = Inr groups0"
      "subscript data ''cards'' = Inr cards0"
      "py_iter cards0 = Inr cards1"
      "open_cards cards1 = Inr ocs"
      "assign_cards m ocs groups0 = Inr groups_by_id"
      "subscript data ''actions'' = Inr (JArr actions1)"
      "sort_by_date isoparse actions1 = Inr actions"
      "valid_actions actions = Inr vs"
      "first_list vs = Inr fl"
      "date_key isoparse fl = Inr start_time"
      "actions \<noteq> []"
      "date_key isoparse (last actions) = Inr end_time"
      "time_sub end_time start_time = Inr (total_sort_time s)"
      "subscript data ''name'' = Inr nm"
      "sort_name s = nm"
      "groups s = filter (\<lambda>grp. cards grp \<noteq> {}) (map snd groups_by_id)"
    by (rule parse_data_InrE)
  let ?open = "filter (\<lambda>c. \<not> is_closed c) cs"
  let ?d = "set_item data ''cards'' (JArr ?open)"
  have s: "subscript ?d k = (if k = ''cards'' then Inr (JArr ?open) else subscript data k)" for k
    using assms(2) by (rule subscript_set_item)
  from a(4) assms(2) have "cards0 = JArr cs" by simp
  with a(5) have c: "cards1 = cs" by simp
  have "parse_data isoparse m ?d =
     Inr (\<lparr>sort_name = nm,
           groups = filter (\<lambda>grp. cards grp \<noteq> {}) (map snd groups_by_id),
           total_sort_time = total_sort_time s\<rparr>,
          set_item (set_item ?d ''lists'' (JArr trello_lists)) ''actions'' (JArr actions))"
  proof (rule parse_data_InrI)
    show "subscript ?d ''lists'' = Inr (JArr lists1)" using a(1) by (simp add: s)
    show "sort_by_pos lists1 = Inr trello_lists" by (rule a(2))
    show "make_groups trello_lists [] = Inr groups0" by (rule a(3))
    show "subscript ?d ''cards'' = Inr (JArr ?open)" by (simp add: s)
    show "py_iter (JArr ?open) = Inr ?open" by simp
    show "open_cards ?open = Inr ocs" using a(6) c by (simp add: open_cards_of_open)
    show "assign_cards m ocs groups0 = Inr groups_by_id" by (rule a(7))
    show "subscript ?d ''actions'' = Inr (JArr actions1)" using a(8) by (simp add: s)
    show "sort_by_date isoparse actions1 = Inr actions" by (rule a(9))
    show "valid_actions actions = Inr vs" by (rule a(10))
    show "first_list vs = Inr fl" by (rule a(11))
    show "date_key isoparse fl = Inr start_time" by (rule a(12))
    show "actions \<noteq> []" by (rule a(13))
    show "date_key isoparse (last actions) = Inr end_time" by (rule a(14))
    show "time_sub end_time start_time = Inr (total_sort_time s)" by (rule a(15))
    show "subscript ?d ''name'' = Inr nm" using a(16) by (simp add: s)
  qed
  then show ?thesis
    using Sort_eqI [OF a(17) a(18) refl] by simp
qed

subsection \<open>The directory\<close>

lemma json_paths_filter:
  "json_paths fs path files = map (path_join path) (filter (is_json_file fs path) files)"
  by (induction files) (simp_all add: is_json_file_def Let_def)

subsection \<open>The examples, evaluated\<close>

lemma study_parse: "parse_board example_isoparse None (Inr study) = Inr study_sort"
  by code_simp

lemma study_parse_mapped:
  "parse_board example_isoparse (Some fruit_ids) (Inr study) = Inr study_sort_mapped"
  by code_simp

lemma study_actions_sub: "subscript study ''actions'' = Inr (JArr study_actions)"
  by (simp add: study_def)


lemma study_cards_sub: "subscript study ''cards'' = Inr (JArr study_cards)"
  by (simp add: study_def)

lemma study_parse_data:
  "parse_data example_isoparse None study = Inr (study_sort, study_after)"
  by code_simp

lemma study_parse_fig_missing:
  "parse_board example_isoparse (Some fig_missing) (Inr study) = Inl KeyError"
  by code_simp


lemma twin_parse: "parse_board example_isoparse None (Inr twin_board) = Inr twin_sort"
  by code_simp

section \<open>The properties\<close>

text \<open>
  C5. Whenever extraction succeeds, every group of the returned \<open>Sort\<close> has at least one
  card: a group left without cards is not in the output.
\<close>

theorem groups_never_empty:
  assumes "parse_board isoparse card_mapping (Inr data) = Inr s"
  shows "\<forall>g \<in> set (groups s). cards g \<noteq> {}"
proof -
  from assms obtain data' where "parse_data isoparse card_mapping data = Inr (s, data')"
    by (rule parse_board_InrE)
  then obtain groups_by_id :: "(hkey \<times> 'a Group) list"
    where "groups s = filter (\<lambda>grp. cards grp \<noteq> {}) (map snd groups_by_id)"
    by (rule parse_data_InrE)
  then show ?thesis by simp
qed

theorem groups_never_empty_witness:
  "parse_board example_isoparse None (Inr study) = Inr study_sort \<and>
   list_all (\<lambda>g. cards g \<noteq> {}) (groups study_sort)"
  using study_parse groups_never_empty [OF study_parse] by (simp add: list_all_iff)

text \<open>
  C1. Whenever extraction succeeds, the duration is the latest date among all actions of
  the document, of whatever kind, minus the earliest date among its list creations (each
  of which is retained).
\<close>

theorem duration_last_minus_first_creation:
  assumes "parse_board isoparse card_mapping (Inr data) = Inr s"
    and "subscript data ''actions'' = Inr (JArr acts)"
  shows "total_sort_time s =
           Max ((\<lambda>a. micros (date_of isoparse a)) ` set acts) -
           Min ((\<lambda>a. micros (date_of isoparse a)) ` {a \<in> set acts. is_creation a})"
proof -
  from assms(1) obtain data' where "parse_data isoparse card_mapping data = Inr (s, data')"
    by (rule parse_board_InrE)
  then obtain actions fl where a: "set actions = set acts"
    "sorted (map (\<lambda>a. micros (date_of isoparse a)) actions)"
    "actions \<noteq> []"
    "find is_creation actions = Some fl"
    "total_sort_time s =
       micros (date_of isoparse (last actions)) - micros (date_of isoparse fl)"
    using assms(2) by (rule parse_data_times)
  show ?thesis
    using a(5) last_sorted_Max [OF a(2,3)] find_sorted_Min [OF a(2,4)] a(1) by simp
qed

text \<open>
  In \<open>study\<close> the last retained action is the card move at 10:20; the comment at 10:30,
  which is not retained, ends the session: thirty minutes after the creation at 10:00.
\<close>

theorem duration_last_minus_first_creation_witness:
  "parse_board example_isoparse None (Inr study) = Inr study_sort \<and>
   subscript study ''actions'' = Inr (JArr study_actions) \<and>
   total_sort_time study_sort =
     Max ((\<lambda>a. micros (date_of example_isoparse a)) ` set study_actions) -
     Min ((\<lambda>a. micros (date_of example_isoparse a)) ` {a \<in> set study_actions. is_creation a}) \<and>
   total_sort_time study_sort = 1800000000"
  using study_parse study_actions_sub
    duration_last_minus_first_creation [OF study_parse study_actions_sub]
  by (simp add: study_sort_def)

text \<open>
  C10. Whenever extraction succeeds, the duration is not negative.
\<close>

theorem duration_non_negative:
  assumes "parse_board isoparse card_mapping (Inr data) = Inr s"
  shows "0 \<le> total_sort_time s"
proof -
  from assms(1) obtain data' where p: "parse_data isoparse card_mapping data = Inr (s, data')"
    by (rule parse_board_InrE)
  then obtain acts where "subscript data ''actions'' = Inr (JArr acts)"
    by (rule parse_data_InrE)
  with p obtain actions fl where a:
    "sorted (map (\<lambda>a. micros (date_of isoparse a)) actions)"
    "actions \<noteq> []"
    "find is_creation actions = Some fl"
    "total_sort_time s =
       micros (date_of isoparse (last actions)) - micros (date_of isoparse fl)"
    by (rule parse_data_times)
  from a(3) have "fl \<in> set actions" by (auto simp: find_Some_iff)
  then have "micros (date_of isoparse fl) \<le> Max ((\<lambda>a. micros (date_of isoparse a)) ` set actions)"
    by simp
  with a(4) last_sorted_Max [OF a(1,2)] show ?thesis by simp
qed

theorem duration_non_negative_witness:
  "parse_board example_isoparse None (Inr study) = Inr study_sort \<and>
   0 \<le> total_sort_time study_sort"
  using study_parse duration_non_negative [OF study_parse] by simp

text \<open>
  C7. A document whose actions array holds no list creation is refused: extraction
  raises and returns no \<open>Sort\<close>, whatever its lists, cards and other actions are.
\<close>

theorem no_creation_fails:
  assumes "subscript data ''actions'' = Inr (JArr acts)"
    and "\<forall>a \<in> set acts. \<not> is_creation a"
  shows "\<exists>e. parse_board isoparse card_mapping (Inr data) = Inl e"
proof (cases "parse_board isoparse card_mapping (Inr data)")
  case (Inl e)
  then show ?thesis by blast
next
  case (Inr s)
  then obtain data' where "parse_data isoparse card_mapping data = Inr (s, data')"
    by (rule parse_board_InrE)
  then obtain actions fl where "set actions = set acts" "find is_creation actions = Some fl"
    using assms(1) by (rule parse_data_times)
  then have "fl \<in> set acts" "is_creation fl" by (auto simp: find_Some_iff)
  with assms(2) show ?thesis by blast
qed

theorem no_creation_fails_witness:
  "subscript quiet_study ''actions'' = Inr (JArr quiet_actions) \<and>
   list_all (\<lambda>a. \<not> is_creation a) quiet_actions \<and>
   (\<exists>e. parse_board example_isoparse (None :: (string \<rightharpoonup> nat) option) (Inr quiet_study) = Inl e) \<and>
   parse_board example_isoparse (None :: (string \<rightharpoonup> nat) option) (Inr quiet_study) =
     Inl StopIteration"
proof -
  have a: "subscript quiet_study ''actions'' = Inr (JArr quiet_actions)"
    by (simp add: quiet_study_def)
  have b: "\<forall>a \<in> set quiet_actions. \<not> is_creation a"
    by (simp add: quiet_actions_def is_creation_def mk_action_def field_def)
  have c: "parse_board example_isoparse (None :: (string \<rightharpoonup> nat) option) (Inr quiet_study) =
     Inl StopIteration"
    by code_simp
  show ?thesis
    using a b c no_creation_fails [OF a b, of example_isoparse "None :: (string \<rightharpoonup> nat) option"]
    by (simp add: list_all_iff)
qed







text \<open>
  C4. With a card mapping, whenever extraction succeeds every identifier in every group
  is a value of the mapping; and when the name of a card that is not closed is absent
  from the mapping, extraction raises and returns no \<open>Sort\<close>.
\<close>

theorem mapped_identifiers:
  "(parse_board isoparse (Some cm) (Inr data) = Inr s \<longrightarrow>
      (\<forall>g \<in> set (groups s). \<forall>x \<in> cards g. \<exists>v \<in> ran cm. x = Mapped v)) \<and>
   (subscript data ''cards'' = Inr (JArr cs) \<and> c \<in> set cs \<and> \<not> is_closed c \<and>
    subscript c ''name'' = Inr (JStr n) \<and> cm n = None \<longrightarrow>
      (\<exists>e. parse_board isoparse (Some cm) (Inr data) = Inl e))"
proof (intro conjI impI ballI)
  fix g x
  assume p: "parse_board isoparse (Some cm) (Inr data) = Inr s"
    and g: "g \<in> set (groups s)" "x \<in> cards g"
  from p obtain data' where "parse_data isoparse (Some cm) data = Inr (s, data')"
    by (rule parse_board_InrE)
  from this g obtain c where "card_ident (Some cm) c = Inr x"
    by (rule parse_data_identifiers)
  then obtain n v where "cm n = Some v" "x = Mapped v" by (rule card_ident_mapped)
  then show "\<exists>v \<in> ran cm. x = Mapped v" by (auto simp: ran_def)
next
  assume h: "subscript data ''cards'' = Inr (JArr cs) \<and> c \<in> set cs \<and> \<not> is_closed c \<and>
    subscript c ''name'' = Inr (JStr n) \<and> cm n = None"
  show "\<exists>e. parse_board isoparse (Some cm) (Inr data) = Inl e"
  proof (cases "parse_board isoparse (Some cm) (Inr data)")
    case (Inl e)
    then show ?thesis by blast
  next
    case (Inr s)
    then obtain data' where "parse_data isoparse (Some cm) data = Inr (s, data')"
      by (rule parse_board_InrE)
    then obtain cards0 cards1 groups0 and groups_by_id :: "(hkey \<times> 'a Group) list"
      where a: "subscript data ''cards'' = Inr cards0" "py_iter cards0 = Inr cards1"
        "assign_cards (Some cm) (filter (\<lambda>c. \<not> is_closed c) cards1) groups0 = Inr groups_by_id"
      by (rule parse_data_groups)
    from a(1) h have "cards0 = JArr cs" by simp
    with a(2) have "cards1 = cs" by simp
    with assign_cards_idents [OF a(3)] h obtain x where "card_ident (Some cm) c = Inr x"
      by auto
    then obtain n' v where "subscript c ''name'' = Inr (JStr n')" "cm n' = Some v"
      by (rule card_ident_mapped)
    with h show ?thesis by simp
  qed
qed

theorem mapped_identifiers_witness:
  "parse_board example_isoparse (Some fruit_ids) (Inr study) = Inr study_sort_mapped \<and>
   list_all (\<lambda>g. \<forall>x \<in> cards g. \<exists>v \<in> ran fruit_ids. x = Mapped v) (groups study_sort_mapped) \<and>
   subscript study ''cards'' = Inr (JArr study_cards) \<and>
   mk_card ''fig'' ''L2'' False \<in> set study_cards \<and>
   \<not> is_closed (mk_card ''fig'' ''L2'' False) \<and>
   subscript (mk_card ''fig'' ''L2'' False) ''name'' = Inr (JStr ''fig'') \<and>
   fig_missing ''fig'' = None \<and>
   (\<exists>e. parse_board example_isoparse (Some fig_missing) (Inr study) = Inl e) \<and>
   parse_board example_isoparse (Some fig_missing) (Inr study) = Inl KeyError"
proof -
  have a: "mk_card ''fig'' ''L2'' False \<in> set study_cards"
    "\<not> is_closed (mk_card ''fig'' ''L2'' False)"
    "subscript (mk_card ''fig'' ''L2'' False) ''name'' = Inr (JStr ''fig'')"
    "fig_missing ''fig'' = None"
    by (simp_all add: study_cards_def is_closed_def mk_card_def field_def fig_missing_def)
  have "list_all (\<lambda>g. \<forall>x \<in> cards g. \<exists>v \<in> ran fruit_ids. x = Mapped v)
      (groups study_sort_mapped)"
    using study_parse_mapped
      mapped_identifiers [where isoparse = example_isoparse and cm = fruit_ids
        and data = study and s = study_sort_mapped]
    by (simp add: list_all_iff)
  moreover have "\<exists>e. parse_board example_isoparse (Some fig_missing) (Inr study) = Inl e"
    using study_cards_sub a
      mapped_identifiers [where isoparse = example_isoparse and cm = fig_missing
        and data = study and cs = study_cards and c = "mk_card ''fig'' ''L2'' False"
        and n = "''fig''"]
    by blast
  ultimately show ?thesis
    using study_parse_mapped study_cards_sub a study_parse_fig_missing by simp
qed

text \<open>
  C6. Whenever extraction succeeds, every identifier in a group of the returned \<open>Sort\<close>
  is the identifier of a card that is not closed, and the document with its closed cards
  deleted gives the same \<open>Sort\<close>: a closed card contributes nothing, whatever its
  \<open>idList\<close>.
\<close>

theorem closed_cards_contribute_nothing:
  assumes "parse_board isoparse m (Inr data) = Inr s"
    and "subscript data ''cards'' = Inr (JArr cs)"
  shows "(\<forall>g \<in> set (groups s). \<forall>x \<in> cards g.
            \<exists>c \<in> set cs. \<not> is_closed c \<and> card_ident m c = Inr x) \<and>
         parse_board isoparse m
           (Inr (set_item data ''cards'' (JArr (filter (\<lambda>c. \<not> is_closed c) cs)))) = Inr s"
proof (intro conjI ballI)
  from assms(1) obtain data' where d: "parse_data isoparse m data = Inr (s, data')"
    by (rule parse_board_InrE)
  from parse_data_without_closed [OF d assms(2)]
  show "parse_board isoparse m
      (Inr (set_item data ''cards'' (JArr (filter (\<lambda>c. \<not> is_closed c) cs)))) = Inr s"
    by (auto simp: parse_board_def)
  fix g x assume g: "g \<in> set (groups s)" "x \<in> cards g"
  from d g obtain cards0 cards1 c where c: "subscript data ''cards'' = Inr cards0"
    "py_iter cards0 = Inr cards1" "c \<in> set cards1" "\<not> is_closed c" "card_ident m c = Inr x"
    by (rule parse_data_identifiers)
  from c(1) assms(2) have "cards0 = JArr cs" by simp
  with c(2) have "cards1 = cs" by simp
  with c(3,4,5) show "\<exists>c \<in> set cs. \<not> is_closed c \<and> card_ident m c = Inr x" by blast
qed

theorem closed_cards_contribute_nothing_witness:
  "parse_board example_isoparse None (Inr study) = Inr study_sort \<and>
   subscript study ''cards'' = Inr (JArr study_cards) \<and>
   list_all (\<lambda>g. \<forall>x \<in> cards g.
       \<exists>c \<in> set study_cards. \<not> is_closed c \<and> card_ident None c = Inr x) (groups study_sort) \<and>
   parse_board example_isoparse None
     (Inr (set_item study ''cards'' (JArr (filter (\<lambda>c. \<not> is_closed c) study_cards)))) =
     Inr study_sort"
  using study_parse study_cards_sub
    closed_cards_contribute_nothing [OF study_parse study_cards_sub]
  by (simp add: list_all_iff)

text \<open>
  C8. The batch driver returns a sequence of \<open>Sort\<close>s exactly when the directory can be
  listed and every plain file in it whose name ends in \<open>.json\<close> opens and parses; the
  sequence then holds one \<open>Sort\<close> per such file, in the order of the listing, and nothing
  for the other entries.
\<close>

theorem one_sort_per_json_file:
  "parse_sorts_in_dir fs isoparse m path = Inr sorts \<longleftrightarrow>
     (\<exists>files. listdir fs path = Inr files \<and>
        list_all2 (\<lambda>file s. \<exists>f. open_r fs (path_join path file) = Inr f \<and>
                               parse_board isoparse m f = Inr s)
          (filter (is_json_file fs path) files) sorts)"
proof -
  have "mapE (\<lambda>p. bindE (open_r fs p) (parse_board isoparse m)) (map (path_join path) fl) = Inr ss
      \<longleftrightarrow> list_all2 (\<lambda>file s. \<exists>f. open_r fs (path_join path file) = Inr f \<and>
                               parse_board isoparse m f = Inr s) fl ss" for fl ss
  proof (induction fl arbitrary: ss)
    case Nil
    then show ?case by auto
  next
    case (Cons a fl)
    then show ?case by (cases ss) (auto simp: bindE_Inr_iff)
  qed
  then show ?thesis
    by (auto simp: parse_sorts_in_dir_def get_paths_to_jsons_in_dir_def bindE_Inr_iff
        json_paths_filter)
qed

theorem one_sort_per_json_file_witness:
  "listdir example_fs ''exports'' = Inr [''notes.txt'', ''a.json'', ''old.json'', ''b.json''] \<and>
   filter (is_json_file example_fs ''exports'') [''notes.txt'', ''a.json'', ''old.json'', ''b.json'']
     = [''a.json'', ''b.json''] \<and>
   parse_sorts_in_dir example_fs example_isoparse None ''exports'' = Inr [study_sort, twin_sort]"
proof -
  have l: "listdir example_fs ''exports'' =
      Inr [''notes.txt'', ''a.json'', ''old.json'', ''b.json'']"
    by (simp add: example_fs_def)
  have f: "filter (is_json_file example_fs ''exports'')
      [''notes.txt'', ''a.json'', ''old.json'', ''b.json''] = [''a.json'', ''b.json'']"
    by (simp add: is_json_file_def example_fs_def path_join_def suffix_to_prefix)
  have o: "open_r example_fs (path_join ''exports'' ''a.json'') = Inr (Inr study)"
    "open_r example_fs (path_join ''exports'' ''b.json'') = Inr (Inr twin_board)"
    by (simp_all add: example_fs_def path_join_def suffix_to_prefix)
  have "parse_sorts_in_dir example_fs example_isoparse None ''exports'' =
      Inr [study_sort, twin_sort]"
    unfolding one_sort_per_json_file
    using l f o study_parse twin_parse by simp
  with l f show ?thesis by simp
qed

text \<open>
  C9. The extractor is a function of the decoded document, so equal documents give equal
  results. The one thing a run changes is the document itself, whose lists and actions
  it sorts in place: a second run on the document as the first run has left it returns
  the same \<open>Sort\<close> and leaves the document as it is.
\<close>

theorem second_run_same_sort:
  assumes "parse_data isoparse None data = Inr (s, data')"
  shows "parse_data isoparse None data' = Inr (s, data')"
proof -
  from assms obtain lists1 trello_lists groups0 cards0 cards1 cs
    and groups_by_id :: "(hkey \<times> 'a Group) list"
    and actions1 actions vs fl start_time end_time nm
    where a: "subscript data ''lists'' = Inr (JArr lists1)"
      "sort_by_pos lists1 = Inr trello_lists"
      "make_groups trello_lists [] = Inr groups0"
      "subscript data ''cards'' = Inr cards0"
      "py_iter cards0 = Inr cards1"
      "open_cards cards1 = Inr cs"
      "assign_cards None cs groups0 = Inr groups_by_id"
      "subscript data ''actions'' = Inr (JArr actions1)"
      "sort_by_date isoparse actions1 = Inr actions"
      "valid_actions actions = Inr vs"
      "first_list vs = Inr fl"
      "date_key isoparse fl = Inr start_time"
      "actions \<noteq> []"
      "date_key isoparse (last actions) = Inr end_time"
      "time_sub end_time start_time = Inr (total_sort_time s)"
      "subscript data ''name'' = Inr nm"
      "sort_name s = nm"
      "groups s = filter (\<lambda>grp. cards grp \<noteq> {}) (map snd groups_by_id)"
      "data' = set_item (set_item data ''lists'' (JArr trello_lists)) ''actions'' (JArr actions)"
    by (rule parse_data_InrE)
  let ?d1 = "set_item data ''lists'' (JArr trello_lists)"
  have s1: "subscript ?d1 k = (if k = ''lists'' then Inr (JArr trello_lists) else subscript data k)"
    for k using a(1) by (rule subscript_set_item)
  have s2: "subscript data' k =
      (if k = ''actions'' then Inr (JArr actions)
       else if k = ''lists'' then Inr (JArr trello_lists) else subscript data k)" for k
    unfolding a(19) using subscript_set_item [of ?d1 "''lists''" "JArr trello_lists"] s1
    by simp
  have same: "set_item (set_item data' ''lists'' (JArr trello_lists)) ''actions'' (JArr actions)
      = data'"
    by (simp add: set_item_same s2)
  have "parse_data isoparse None data' =
     Inr (\<lparr>sort_name = nm,
           groups = filter (\<lambda>grp. cards grp \<noteq> {}) (map snd groups_by_id),
           total_sort_time = total_sort_time s\<rparr>,
          set_item (set_item data' ''lists'' (JArr trello_lists)) ''actions'' (JArr actions))"
  proof (rule parse_data_InrI)
    show "subscript data' ''lists'' = Inr (JArr trello_lists)" by (simp add: s2)
    show "sort_by_pos trello_lists = Inr trello_lists" using a(2) by (rule sort_by_pos_idem)
    show "make_groups trello_lists [] = Inr groups0" by (rule a(3))
    show "subscript data' ''cards'' = Inr cards0" using a(4) by (simp add: s2)
    show "py_iter cards0 = Inr cards1" by (rule a(5))
    show "open_cards cards1 = Inr cs" by (rule a(6))
    show "assign_cards None cs groups0 = Inr groups_by_id" by (rule a(7))
    show "subscript data' ''actions'' = Inr (JArr actions)" by (simp add: s2)
    show "sort_by_date isoparse actions = Inr actions" using a(9) by (rule sort_by_date_idem)
    show "valid_actions actions = Inr vs" by (rule a(10))
    show "first_list vs = Inr fl" by (rule a(11))
    show "date_key isoparse fl = Inr start_time" by (rule a(12))
    show "actions \<noteq> []" by (rule a(13))
    show "date_key isoparse (last actions) = Inr end_time" by (rule a(14))
    show "time_sub end_time start_time = Inr (total_sort_time s)" by (rule a(15))
    show "subscript data' ''name'' = Inr nm" using a(16) by (simp add: s2)
  qed
  then show ?thesis
    unfolding same using Sort_eqI [OF a(17) a(18) refl] by simp
qed

theorem second_run_same_sort_witness:
  "parse_data example_isoparse None study = Inr (study_sort, study_after) \<and>
   parse_data example_isoparse None study_after = Inr (study_sort, study_after)"
  using study_parse_data second_run_same_sort [OF study_parse_data] by simp

end
